theory Spec2Isabelle
  imports Complex_Main "HOL-Library.Char_ord" "HOL-Library.List_Lexorder"
    "HOL-Library.Product_Lexorder"
begin

section \<open>Coffee exports analysis: the tabular data model\<close>

text \<open>
  The program (\<^verbatim>\<open>coffee_exports_analysis.py\<close>) reads the year sheets of a workbook
  into one table, makes the volume column numeric, derives the volume in tons, drops the
  rows without a volume and writes a fixed family of grouped summaries.

  Modelling conventions.
  \<^item> A cell read from the workbook is missing (\<open>Null\<close>, the library's NaN), a number or
    a text. Numbers are exact rationals: floating-point rounding, overflow and the
    special values that a text such as \<^verbatim>\<open>inf\<close> would parse to are outside the model.
  \<^item> A text is a \<open>string\<close> whose characters are code points below 256.
  \<^item> A row is an association list from column names to cells; a column of the table
    that a row does not mention holds \<open>Null\<close> there, which is what concatenating
    frames with different columns produces.
  \<^item> Chart rendering is not modelled: the plotting primitives only consume tables.
\<close>

datatype cell = Null | Num rat | Str string

type_synonym row = "(string \<times> cell) list"

record dataframe =
  columns :: "string list"
  rows :: "row list"

type_synonym workbook = "(string \<times> dataframe) list"

datatype error = ValueError | KeyError | AttributeError

definition cell_of :: "row \<Rightarrow> string \<Rightarrow> cell" where
  "cell_of r c = (case map_of r c of None \<Rightarrow> Null | Some v \<Rightarrow> v)"

fun put :: "string \<Rightarrow> cell \<Rightarrow> row \<Rightarrow> row" where
  "put c v [] = [(c, v)]"
| "put c v (p # ps) = (if fst p = c then (c, v) # ps else p # put c v ps)"

text \<open>\<^verbatim>\<open>df[c] = ...\<close>: the column is added when absent and overwritten when present.\<close>

definition set_column :: "string \<Rightarrow> (row \<Rightarrow> cell) \<Rightarrow> dataframe \<Rightarrow> dataframe" where
  "set_column c f df =
     \<lparr>columns = (if c \<in> set (columns df) then columns df else columns df @ [c]),
      rows = map (\<lambda>r. put c (f r) r) (rows df)\<rparr>"

text \<open>\<^verbatim>\<open>pd.concat(frames, ignore_index=True)\<close>: rows in order, columns united in order of
  first appearance.\<close>

definition union_columns :: "string list list \<Rightarrow> string list" where
  "union_columns css = foldl (\<lambda>acc c. if c \<in> set acc then acc else acc @ [c]) [] (concat css)"

definition concat_frames :: "dataframe list \<Rightarrow> dataframe" where
  "concat_frames frames =
     \<lparr>columns = union_columns (map columns frames), rows = concat (map rows frames)\<rparr>"

section \<open>String helpers of the loader\<close>

text \<open>\<^verbatim>\<open>str.lower\<close>; on the letters that matter for the test against \<^verbatim>\<open>"year"\<close> it is
  the ASCII lower-casing.\<close>

definition lower_char :: "char \<Rightarrow> char" where
  "lower_char c =
     (if CHR ''A'' \<le> c \<and> c \<le> CHR ''Z'' then char_of (of_char c + (32::nat)) else c)"

definition lower :: "string \<Rightarrow> string" where
  "lower s = map lower_char s"

definition startswith :: "string \<Rightarrow> string \<Rightarrow> bool" where
  "startswith s p = (take (length p) s = p)"

definition isspace :: "char \<Rightarrow> bool" where
  "isspace c =
     (let n = (of_char c :: nat)
      in (9 \<le> n \<and> n \<le> 13) \<or> (28 \<le> n \<and> n \<le> 32) \<or> n = 133 \<or> n = 160)"

definition strip :: "string \<Rightarrow> string" where
  "strip s = rev (dropWhile isspace (rev (dropWhile isspace s)))"

text \<open>\<^verbatim>\<open>s.replace(old, new)\<close>: every occurrence of \<open>old\<close>, left to right, without overlap.\<close>

function replace_str :: "string \<Rightarrow> string \<Rightarrow> string \<Rightarrow> string" where
  "replace_str old new s =
     (if old = [] then new @ concat (map (\<lambda>c. c # new) s)
      else if s = [] then []
      else if startswith s old then new @ replace_str old new (drop (length old) s)
      else hd s # replace_str old new (tl s))"
  by pat_completeness auto
termination
  by (relation "measure (\<lambda>(old, new, s). length s)") auto

declare replace_str.simps [simp del]

definition year_label :: "string \<Rightarrow> string" where
  "year_label sheet = strip (replace_str ''Year '' [] sheet)"

definition is_year_sheet :: "string \<Rightarrow> bool" where
  "is_year_sheet s = startswith (lower s) ''year''"

section \<open>Loader\<close>

definition sheet_names :: "workbook \<Rightarrow> string list" where
  "sheet_names wb = map fst wb"

text \<open>\<^verbatim>\<open>pd.read_excel(path, sheet_name=sheet)\<close>: the sheet is looked up by name. The loader
  only asks for names taken from \<open>sheet_names\<close>, so the lookup cannot miss there.\<close>

definition read_excel :: "workbook \<Rightarrow> string \<Rightarrow> dataframe" where
  "read_excel wb sheet =
     (case map_of wb sheet of None \<Rightarrow> \<lparr>columns = [], rows = []\<rparr> | Some df \<Rightarrow> df)"

definition year_frame :: "workbook \<Rightarrow> string \<Rightarrow> dataframe" where
  "year_frame wb sheet =
     set_column ''Year'' (\<lambda>r. Str (year_label sheet)) (read_excel wb sheet)"

definition read_year_sheets :: "workbook \<Rightarrow> error + dataframe" where
  "read_year_sheets wb =
     (let year_sheets = filter is_year_sheet (sheet_names wb);
          frames = map (year_frame wb) year_sheets
      in if frames = [] then Inl ValueError else Inr (concat_frames frames))"

section \<open>Normalizer\<close>

text \<open>\<^verbatim>\<open>pd.to_numeric(..., errors="coerce")\<close>. The library's parser of numeric texts is not
  part of the repository: it is the parameter \<open>parse\<close>, \<open>None\<close> for an unparseable text.\<close>

definition to_numeric :: "(string \<Rightarrow> rat option) \<Rightarrow> cell \<Rightarrow> cell" where
  "to_numeric parse c =
     (case c of
        Null \<Rightarrow> Null
      | Num x \<Rightarrow> Num x
      | Str s \<Rightarrow> (case parse s of None \<Rightarrow> Null | Some x \<Rightarrow> Num x))"

definition coerce_numeric ::
  "(string \<Rightarrow> rat option) \<Rightarrow> dataframe \<Rightarrow> string list \<Rightarrow> dataframe" where
  "coerce_numeric parse df cols =
     foldl (\<lambda>d c. if c \<in> set (columns d)
                   then set_column c (\<lambda>r. to_numeric parse (cell_of r c)) d else d)
       df cols"

text \<open>Division of a numeric column by a constant; NaN stays NaN. A text cannot occur in a
  coerced column.\<close>

definition div_cell :: "cell \<Rightarrow> rat \<Rightarrow> cell" where
  "div_cell c d = (case c of Num x \<Rightarrow> Num (x / d) | Null \<Rightarrow> Null | Str s \<Rightarrow> Null)"

definition dropna :: "string \<Rightarrow> dataframe \<Rightarrow> dataframe" where
  "dropna c df = df\<lparr>rows := filter (\<lambda>r. cell_of r c \<noteq> Null) (rows df)\<rparr>"

text \<open>Steps 2 and 3 of \<^verbatim>\<open>main\<close> and the drop of rows without volume. Indexing the volume
  column raises a key error when the table has no such column.\<close>

definition normalizer :: "(string \<Rightarrow> rat option) \<Rightarrow> dataframe \<Rightarrow> error + dataframe" where
  "normalizer parse df0 =
     (let df1 = coerce_numeric parse df0 [''Trade volume'', ''Trade value'']
      in if ''Trade volume'' \<notin> set (columns df1) then Inl KeyError
         else Inr (dropna ''Trade volume''
                (set_column ''Trade volume (t)''
                   (\<lambda>r. div_cell (cell_of r ''Trade volume'') 1000) df1)))"

section \<open>Aggregator\<close>

text \<open>Group keys are sorted numbers first, then texts, as the library sorts mixed keys.\<close>

definition cell_rank :: "cell \<Rightarrow> nat \<times> rat \<times> string" where
  "cell_rank c = (case c of Num x \<Rightarrow> (0, x, []) | Str s \<Rightarrow> (1, 0, s) | Null \<Rightarrow> (2, 0, []))"

definition pair_rank :: "cell \<times> cell \<Rightarrow> (nat \<times> rat \<times> string) \<times> (nat \<times> rat \<times> string)" where
  "pair_rank k = (cell_rank (fst k), cell_rank (snd k))"

text \<open>The summed measure of a row; a sum skips NaN.\<close>

definition volume :: "row \<Rightarrow> rat" where
  "volume r = (case cell_of r ''Trade volume'' of Num x \<Rightarrow> x | Null \<Rightarrow> 0 | Str s \<Rightarrow> 0)"

text \<open>The grouping key of a row; a row with a missing key value belongs to no group.\<close>

definition key1 :: "string \<Rightarrow> row \<Rightarrow> cell option" where
  "key1 c r = (case cell_of r c of Null \<Rightarrow> None | Num x \<Rightarrow> Some (Num x) | Str s \<Rightarrow> Some (Str s))"

definition key2 :: "string \<Rightarrow> string \<Rightarrow> row \<Rightarrow> (cell \<times> cell) option" where
  "key2 c d r =
     (case key1 c r of
        None \<Rightarrow> None
      | Some a \<Rightarrow> (case key1 d r of None \<Rightarrow> None | Some b \<Rightarrow> Some (a, b)))"

text \<open>\<^verbatim>\<open>df.groupby(keys, as_index=False)["Trade volume"].sum()\<close>: one row per distinct
  key, in ascending key order, holding the sum of the measure over the group.\<close>

definition group_sum ::
  "(row \<Rightarrow> 'k option) \<Rightarrow> ('k \<Rightarrow> 'o::linorder) \<Rightarrow> row list \<Rightarrow> ('k \<times> rat) list" where
  "group_sum kf rank rs =
     map (\<lambda>k. (k, sum_list (map volume (filter (\<lambda>r. kf r = Some k) rs))))
       (sort_key rank (remdups (List.map_filter kf rs)))"

text \<open>The result of a floating-point division: a finite number, an infinity, or NaN.\<close>

datatype fnum = Fin rat | PInf | NInf | NaN

definition float_div :: "rat \<Rightarrow> rat \<Rightarrow> fnum" where
  "float_div a b =
     (if b \<noteq> 0 then Fin (a / b) else if a = 0 then NaN else if 0 < a then PInf else NInf)"

definition times100 :: "fnum \<Rightarrow> fnum" where
  "times100 x = (case x of Fin q \<Rightarrow> Fin (q * 100) | PInf \<Rightarrow> PInf | NInf \<Rightarrow> NInf | NaN \<Rightarrow> NaN)"

text \<open>\<^verbatim>\<open>t["Porcentaje"] = t["Trade volume"] / t["Trade volume"].sum() * 100.0\<close>\<close>

definition with_percent :: "('k \<times> rat) list \<Rightarrow> ('k \<times> rat \<times> fnum) list" where
  "with_percent t =
     (let total = sum_list (map snd t)
      in map (\<lambda>(k, v). (k, v, times100 (float_div v total))) t)"

text \<open>\<^verbatim>\<open>t.groupby("Year").head(n)\<close>: the rows that are among the first \<open>n\<close> of their group,
  in table order; \<open>seen\<close> holds the keys of the rows already passed.\<close>

fun head_per_group :: "nat \<Rightarrow> ('r \<Rightarrow> 'k) \<Rightarrow> 'k list \<Rightarrow> 'r list \<Rightarrow> 'r list" where
  "head_per_group n key seen [] = []"
| "head_per_group n key seen (r # rs) =
     (if count_list seen (key r) < n
      then r # head_per_group n key (key r # seen) rs
      else head_per_group n key (key r # seen) rs)"

subsection \<open>The report tables\<close>

text \<open>A: grouped by Year, sorted by Year.\<close>

definition per_year :: "dataframe \<Rightarrow> (cell \<times> rat) list" where
  "per_year df =
     sort_key (\<lambda>(k, v). cell_rank k) (group_sum (key1 ''Year'') cell_rank (rows df))"

text \<open>B, C, F, G: grouped by one column, sorted by the summed volume, descending.\<close>

definition by_volume :: "string \<Rightarrow> dataframe \<Rightarrow> (cell \<times> rat) list" where
  "by_volume c df =
     sort_key (\<lambda>(k, v). - v) (group_sum (key1 c) cell_rank (rows df))"

text \<open>D, E, F2: grouped by Year and one column, sorted by Year ascending and then by the
  summed volume descending; then the first \<open>n\<close> rows of every Year.\<close>

definition by_year_volume :: "string \<Rightarrow> dataframe \<Rightarrow> ((cell \<times> cell) \<times> rat) list" where
  "by_year_volume c df =
     sort_key (\<lambda>(k, v). (cell_rank (fst k), - v))
       (group_sum (key2 ''Year'' c) pair_rank (rows df))"

definition year_of :: "(cell \<times> cell) \<times> rat \<Rightarrow> cell" where
  "year_of x = fst (fst x)"

definition top_per_year :: "nat \<Rightarrow> string \<Rightarrow> dataframe \<Rightarrow> ((cell \<times> cell) \<times> rat) list" where
  "top_per_year n c df = head_per_group n year_of [] (by_year_volume c df)"

text \<open>G2: the exporters of the five main municipalities.\<close>

definition muni_exp :: "dataframe \<Rightarrow> ((cell \<times> cell) \<times> rat) list" where
  "muni_exp df =
     sort_key (\<lambda>(k, v). (cell_rank (fst k), - v))
       (group_sum (key2 ''Municipality of export'' ''Exporter'') pair_rank (rows df))"

definition top5_names :: "dataframe \<Rightarrow> cell list" where
  "top5_names df = map fst (take 5 (take 10 (by_volume ''Municipality of export'' df)))"

definition top_muni_exp :: "dataframe \<Rightarrow> ((cell \<times> cell) \<times> rat) list" where
  "top_muni_exp df = filter (\<lambda>x. fst (fst x) \<in> set (top5_names df)) (muni_exp df)"

section \<open>The run\<close>

datatype table =
  Frame dataframe
| Agg1 "(cell \<times> rat) list"
| AggPct "(cell \<times> rat \<times> fnum) list"
| Agg2 "((cell \<times> cell) \<times> rat) list"

text \<open>The CSV tables that \<^verbatim>\<open>main\<close> saves from the normalised table, in the order of the
  calls of \<^verbatim>\<open>save_table\<close>.\<close>

definition written :: "dataframe \<Rightarrow> (string \<times> table) list" where
  "written df =
     [(''combined_all_years'', Frame df),
      (''summary_trade_volume_by_year'', Agg1 (per_year df))]
     @ (if ''Country of destination'' \<in> set (columns df)
        then [(''summary_trade_volume_by_destination_country'',
               AggPct (with_percent (by_volume ''Country of destination'' df)))]
        else [])
     @ (if ''Exporter'' \<in> set (columns df)
        then [(''summary_trade_volume_by_exporter'',
               AggPct (with_percent (by_volume ''Exporter'' df)))]
        else [])
     @ (if ''Importer'' \<in> set (columns df)
        then [(''top3_importers_per_year'', Agg2 (top_per_year 3 ''Importer'' df))]
        else [])
     @ (if ''Country of destination'' \<in> set (columns df)
        then [(''top3_destination_countries_per_year'',
               Agg2 (top_per_year 3 ''Country of destination'' df))]
        else [])
     @ (if ''Coffee bean'' \<in> set (columns df)
        then [(''summary_trade_volume_by_coffee_bean'',
               AggPct (with_percent (by_volume ''Coffee bean'' df))),
              (''top1_coffee_bean_per_year'', Agg2 (top_per_year 1 ''Coffee bean'' df))]
        else [])
     @ (if ''Municipality of export'' \<in> set (columns df)
        then [(''summary_trade_volume_by_municipality'',
               Agg1 (by_volume ''Municipality of export'' df))]
             @ (if ''Exporter'' \<in> set (columns df)
                then [(''exporters_in_top5_municipalities'', Agg2 (top_muni_exp df))]
                else [])
        else [])"

text \<open>The chart file name of G2 calls \<^verbatim>\<open>m.replace(' ', '_')\<close> on every name of
  \<open>top5_names\<close>; a name that is a number has no such method. This happens after the last
  table is saved.\<close>

definition is_text :: "cell \<Rightarrow> bool" where
  "is_text c = (case c of Str s \<Rightarrow> True | Num x \<Rightarrow> False | Null \<Rightarrow> False)"

definition chart_names_raise :: "dataframe \<Rightarrow> bool" where
  "chart_names_raise df =
     (''Municipality of export'' \<in> set (columns df) \<and> ''Exporter'' \<in> set (columns df)
      \<and> \<not> list_all is_text (top5_names df))"

record outcome =
  status :: "error + int"
  files :: "(string \<times> table) list"

definition main :: "(string \<Rightarrow> rat option) \<Rightarrow> workbook \<Rightarrow> outcome" where
  "main parse wb =
     (case read_year_sheets wb of
        Inl e \<Rightarrow> \<lparr>status = Inl e, files = []\<rparr>
      | Inr df0 \<Rightarrow>
          (case normalizer parse df0 of
             Inl e \<Rightarrow> \<lparr>status = Inl e, files = []\<rparr>
           | Inr df_all \<Rightarrow>
               \<lparr>status = (if chart_names_raise df_all then Inl AttributeError else Inr 0),
                files = written df_all\<rparr>))"

text \<open>\<^verbatim>\<open>sys.exit(main(args.excel))\<close>: the returned code, or 1 for a propagated exception.\<close>

definition exit_code :: "outcome \<Rightarrow> int" where
  "exit_code out = (case status out of Inl e \<Rightarrow> 1 | Inr c \<Rightarrow> c)"

section \<open>Notions used by the statements\<close>

text \<open>An occurrence of a text inside another.\<close>

fun occurs :: "string \<Rightarrow> string \<Rightarrow> bool" where
  "occurs p [] = (p = [])"
| "occurs p (c # cs) = (startswith (c # cs) p \<or> occurs p cs)"

text \<open>The Year label in the words of the specification: the sheet name with the prefix
  \<^verbatim>\<open>"Year "\<close> stripped, and the surrounding whitespace trimmed.\<close>

definition after_prefix :: "string \<Rightarrow> string" where
  "after_prefix name = (if startswith name ''Year '' then drop 5 name else name)"

definition label_by_prefix :: "string \<Rightarrow> string" where
  "label_by_prefix name = strip (after_prefix name)"

text \<open>The workbook of the scenario of the specification: sheet \<^verbatim>\<open>Year 2020\<close> with
  volumes 100 and 200, sheet \<^verbatim>\<open>Year 2021\<close> with volume 300.\<close>

definition scenario_workbook :: workbook where
  "scenario_workbook =
     [(''Year 2020'', \<lparr>columns = [''Trade volume''],
         rows = [[(''Trade volume'', Num 100)], [(''Trade volume'', Num 200)]]\<rparr>),
      (''Year 2021'', \<lparr>columns = [''Trade volume''],
         rows = [[(''Trade volume'', Num 300)]]\<rparr>)]"




text \<open>A table with gaps in its key columns: only two of its four rows name an exporter,
  and only two name a coffee bean.\<close>

definition gap_frame :: dataframe where
  "gap_frame =
     \<lparr>columns = [''Trade volume'', ''Exporter'', ''Coffee bean'', ''Year''],
      rows =
        [[(''Trade volume'', Num 10), (''Exporter'', Str ''A''), (''Coffee bean'', Null),
          (''Year'', Str ''2020'')],
         [(''Trade volume'', Num 20), (''Exporter'', Null), (''Coffee bean'', Str ''Arabica''),
          (''Year'', Str ''2020'')],
         [(''Trade volume'', Num 30), (''Exporter'', Str ''B''), (''Coffee bean'', Str ''Arabica''),
          (''Year'', Str ''2021'')],
         [(''Trade volume'', Num 5), (''Exporter'', Null), (''Coffee bean'', Null),
          (''Year'', Str ''2021'')]]\<rparr>"


text \<open>Orders of an aggregate table: by summed volume, non-increasing; by key, ascending;
  by first key ascending and, within one first key, by summed volume non-increasing.\<close>

definition volume_descending :: "('k \<times> rat) list \<Rightarrow> bool" where
  "volume_descending t = sorted_wrt (\<lambda>a b. snd b \<le> snd a) t"


definition key_then_volume :: "((cell \<times> cell) \<times> rat) list \<Rightarrow> bool" where
  "key_then_volume t =
     sorted_wrt (\<lambda>a b. cell_rank (fst (fst a)) < cell_rank (fst (fst b))
                      \<or> (fst (fst a) = fst (fst b) \<and> snd b \<le> snd a)) t"


definition importers_frame :: dataframe where
  "importers_frame =
     \<lparr>columns = [''Trade volume'', ''Importer'', ''Year''],
      rows =
        [[(''Trade volume'', Num 5), (''Importer'', Str ''P''), (''Year'', Str ''2020'')],
         [(''Trade volume'', Num 9), (''Importer'', Str ''Q''), (''Year'', Str ''2020'')],
         [(''Trade volume'', Num 4), (''Importer'', Str ''P''), (''Year'', Str ''2021'')],
         [(''Trade volume'', Num 7), (''Importer'', Str ''R''), (''Year'', Str ''2020'')],
         [(''Trade volume'', Num 1), (''Importer'', Str ''S''), (''Year'', Str ''2020'')],
         [(''Trade volume'', Num 2), (''Importer'', Str ''Q''), (''Year'', Str ''2020'')]]\<rparr>"

text \<open>The volume of a source row after numeric coercion, when it is a number.\<close>

definition parsed_volume :: "(string \<Rightarrow> rat option) \<Rightarrow> row \<Rightarrow> rat option" where
  "parsed_volume parse r =
     (case to_numeric parse (cell_of r ''Trade volume'') of
        Num v \<Rightarrow> Some v | Null \<Rightarrow> None | Str s \<Rightarrow> None)"

text \<open>A table with a numeric, an unparseable, a missing and a parseable text volume, and a
  parser that reads the text \<^verbatim>\<open>250\<close> only.\<close>

definition mixed_frame :: dataframe where
  "mixed_frame =
     \<lparr>columns = [''Trade volume'', ''Exporter'', ''Year''],
      rows =
        [[(''Trade volume'', Num 1500), (''Exporter'', Str ''A''), (''Year'', Str ''2020'')],
         [(''Trade volume'', Str ''n/a''), (''Exporter'', Str ''A''), (''Year'', Str ''2020'')],
         [(''Trade volume'', Null), (''Exporter'', Str ''B''), (''Year'', Str ''2020'')],
         [(''Trade volume'', Str ''250''), (''Exporter'', Str ''B''), (''Year'', Str ''2020'')]]\<rparr>"

definition sample_parse :: "string \<Rightarrow> rat option" where
  "sample_parse s = (if s = ''250'' then Some 250 else None)"

text \<open>What the coercion of the two numeric columns, and then the whole normalizer, does to
  one row of a table with columns \<open>cs\<close>.\<close>

definition coerce_row :: "(string \<Rightarrow> rat option) \<Rightarrow> string list \<Rightarrow> row \<Rightarrow> row" where
  "coerce_row parse cs r =
     (let r1 = (if ''Trade volume'' \<in> set cs
                then put ''Trade volume'' (to_numeric parse (cell_of r ''Trade volume'')) r else r)
      in if ''Trade value'' \<in> set cs
         then put ''Trade value'' (to_numeric parse (cell_of r1 ''Trade value'')) r1 else r1)"

definition normal_row :: "(string \<Rightarrow> rat option) \<Rightarrow> string list \<Rightarrow> row \<Rightarrow> row" where
  "normal_row parse cs r =
     put ''Trade volume (t)'' (div_cell (cell_of (coerce_row parse cs r) ''Trade volume'') 1000)
       (coerce_row parse cs r)"



section \<open>Basic facts\<close>

lemma replace_str_absent:
  "p \<noteq> [] \<Longrightarrow> \<not> occurs p s \<Longrightarrow> replace_str p new s = s"
proof (induction s)
  case Nil
  then show ?case by (simp add: replace_str.simps)
next
  case (Cons c cs)
  then have "\<not> startswith (c # cs) p" and "\<not> occurs p cs" by simp_all
  with Cons show ?case
    by (subst replace_str.simps) simp
qed

lemma replace_str_prefix:
  "p \<noteq> [] \<Longrightarrow> replace_str p new (p @ s) = new @ replace_str p new s"
  by (subst replace_str.simps) (simp add: startswith_def)

lemma year_label_prefix:
  assumes "\<not> occurs ''Year '' rest"
  shows "year_label (''Year '' @ rest) = strip rest"
proof -
  have "replace_str ''Year '' [] (''Year '' @ rest) = [] @ replace_str ''Year '' [] rest"
    by (rule replace_str_prefix) simp
  also have "replace_str ''Year '' [] rest = rest"
    using assms by (intro replace_str_absent) simp_all
  finally show ?thesis by (simp add: year_label_def)
qed

lemma read_excel_sheet:
  "distinct (map fst wb) \<Longrightarrow> (n, f) \<in> set wb \<Longrightarrow> read_excel wb n = f"
  by (simp add: read_excel_def)

lemma rows_set_column [simp]:
  "rows (set_column c f df) = map (\<lambda>r. put c (f r) r) (rows df)"
  by (simp add: set_column_def)

lemma cell_of_put_same [simp]: "cell_of (put c v r) c = v"
  by (induction r) (auto simp: cell_of_def)

lemma cell_of_put_other [simp]: "d \<noteq> c \<Longrightarrow> cell_of (put c v r) d = cell_of r d"
  by (induction r) (auto simp: cell_of_def)

lemma year_frames_sheets:
  assumes "distinct (map fst wb)"
  shows "map (year_frame wb) (filter is_year_sheet (sheet_names wb))
         = map (\<lambda>p. set_column ''Year'' (\<lambda>r. Str (year_label (fst p))) (snd p))
             (filter (\<lambda>p. is_year_sheet (fst p)) wb)"
proof -
  have "map (year_frame wb) (filter is_year_sheet (map fst wb))
        = map (\<lambda>p. year_frame wb (fst p)) (filter (\<lambda>p. is_year_sheet (fst p)) wb)"
    by (simp add: filter_map comp_def)
  also have "\<dots> = map (\<lambda>p. set_column ''Year'' (\<lambda>r. Str (year_label (fst p))) (snd p))
                     (filter (\<lambda>p. is_year_sheet (fst p)) wb)"
  proof (rule map_cong [OF refl])
    fix p assume "p \<in> set (filter (\<lambda>p. is_year_sheet (fst p)) wb)"
    then have "(fst p, snd p) \<in> set wb" by simp
    from read_excel_sheet [OF assms this]
    show "year_frame wb (fst p) = set_column ''Year'' (\<lambda>r. Str (year_label (fst p))) (snd p)"
      by (simp add: year_frame_def)
  qed
  finally show ?thesis by (simp add: sheet_names_def)
qed

lemma read_year_sheets_rows:
  assumes "distinct (sheet_names wb)" and "read_year_sheets wb = Inr df"
  shows "rows df = concat (map (\<lambda>p. map (\<lambda>r. put ''Year'' (Str (year_label (fst p))) r) (rows (snd p)))
                     (filter (\<lambda>p. is_year_sheet (fst p)) wb))"
proof -
  from assms(2) have "df = concat_frames (map (year_frame wb) (filter is_year_sheet (sheet_names wb)))"
    by (simp add: read_year_sheets_def Let_def split: if_splits)
  then have "df = concat_frames (map (\<lambda>p. set_column ''Year'' (\<lambda>r. Str (year_label (fst p))) (snd p))
             (filter (\<lambda>p. is_year_sheet (fst p)) wb))"
    using year_frames_sheets [of wb] assms(1) by (simp add: sheet_names_def)
  then show ?thesis
    by (simp add: concat_frames_def comp_def)
qed

lemma scenario_loaded:
  "read_year_sheets scenario_workbook =
     Inr \<lparr>columns = [''Trade volume'', ''Year''],
          rows = [[(''Trade volume'', Num 100), (''Year'', Str ''2020'')],
                  [(''Trade volume'', Num 200), (''Year'', Str ''2020'')],
                  [(''Trade volume'', Num 300), (''Year'', Str ''2021'')]]\<rparr>"
  unfolding scenario_workbook_def by code_simp

section \<open>The loader\<close>

text \<open>
  Claim C8. For a workbook (whose sheet names are distinct, as a workbook's are) that the
  loader accepts, the number of rows of the unified table, before rows without volume are
  dropped, is the sum of the numbers of rows of the sheets whose name starts with
  \<^verbatim>\<open>year\<close>, case-insensitively.
\<close>

theorem unified_row_count:
  assumes "distinct (sheet_names wb)" and "read_year_sheets wb = Inr df"
  shows "length (rows df)
         = sum_list (map (\<lambda>p. length (rows (snd p))) (filter (\<lambda>p. is_year_sheet (fst p)) wb))"
  by (simp add: read_year_sheets_rows [OF assms] length_concat comp_def)

theorem unified_row_count_witness:
  "distinct (sheet_names scenario_workbook)
   \<and> (\<exists>df. read_year_sheets scenario_workbook = Inr df \<and> length (rows df) = 3)"
proof -
  have d: "distinct (sheet_names scenario_workbook)"
    by (simp add: scenario_workbook_def sheet_names_def)
  have y: "filter (\<lambda>p. is_year_sheet (fst p)) scenario_workbook = scenario_workbook"
    unfolding scenario_workbook_def by code_simp
  from unified_row_count [OF d scenario_loaded] have "length (rows \<lparr>columns = [''Trade volume'', ''Year''],
          rows = [[(''Trade volume'', Num 100), (''Year'', Str ''2020'')],
                  [(''Trade volume'', Num 200), (''Year'', Str ''2020'')],
                  [(''Trade volume'', Num 300), (''Year'', Str ''2021'')]]\<rparr>) = 3"
    unfolding y by (simp add: scenario_workbook_def)
  with d scenario_loaded show ?thesis by blast
qed


lemma startswith_append: "startswith s p \<Longrightarrow> s = p @ drop (length p) s"
  by (metis append_take_drop_id startswith_def)

lemma year_label_by_prefix:
  assumes "\<not> occurs ''Year '' (after_prefix name)"
  shows "year_label name = label_by_prefix name"
proof (cases "startswith name ''Year ''")
  case True
  have "length ''Year '' = 5" by simp
  with True have n: "name = ''Year '' @ drop 5 name"
    using startswith_append [of name "''Year ''"] by (simp only:)
  from assms True have "\<not> occurs ''Year '' (drop 5 name)"
    by (simp add: after_prefix_def)
  then have "year_label (''Year '' @ drop 5 name) = strip (drop 5 name)"
    by (rule year_label_prefix)
  with n True show ?thesis
    by (simp add: label_by_prefix_def after_prefix_def)
next
  case False
  with assms have "\<not> occurs ''Year '' name" by (simp add: after_prefix_def)
  then have "replace_str ''Year '' [] name = name"
    by (intro replace_str_absent) simp_all
  with False show ?thesis
    by (simp add: year_label_def label_by_prefix_def after_prefix_def)
qed

text \<open>
  Claim C5. A workbook without a sheet whose name starts with \<^verbatim>\<open>year\<close>
  (case-insensitively) makes the loader raise a value error; the run then ends with that
  error, a non-zero exit code and no table written. A workbook with such a sheet is
  accepted by the loader.
\<close>

theorem loader_fails_iff_no_year_sheet:
  "((\<exists>n \<in> set (sheet_names wb). is_year_sheet n) \<longrightarrow> (\<exists>df. read_year_sheets wb = Inr df))
   \<and> (\<not> (\<exists>n \<in> set (sheet_names wb). is_year_sheet n) \<longrightarrow>
        read_year_sheets wb = Inl ValueError
        \<and> main parse wb = \<lparr>status = Inl ValueError, files = []\<rparr>
        \<and> exit_code (main parse wb) \<noteq> 0)"
proof -
  have "filter is_year_sheet (sheet_names wb) = [] \<longleftrightarrow> \<not> (\<exists>n \<in> set (sheet_names wb). is_year_sheet n)"
    by (simp add: filter_empty_conv)
  then show ?thesis
    by (auto simp: read_year_sheets_def Let_def main_def exit_code_def)
qed

theorem loader_fails_iff_no_year_sheet_witness:
  "(\<exists>df. read_year_sheets scenario_workbook = Inr df)
   \<and> read_year_sheets [(''Summary'', \<lparr>columns = [''Trade volume''], rows = []\<rparr>)] = Inl ValueError
   \<and> main (\<lambda>s. None) [(''Summary'', \<lparr>columns = [''Trade volume''], rows = []\<rparr>)]
       = \<lparr>status = Inl ValueError, files = []\<rparr>
   \<and> exit_code (main (\<lambda>s. None) [(''Summary'', \<lparr>columns = [''Trade volume''], rows = []\<rparr>)]) \<noteq> 0"
proof -
  have y: "is_year_sheet ''Year 2020''" by code_simp
  have n: "\<not> is_year_sheet ''Summary''" by code_simp
  have a: "\<exists>n \<in> set (sheet_names scenario_workbook). is_year_sheet n"
    using y by (simp add: scenario_workbook_def sheet_names_def)
  have b: "\<not> (\<exists>n \<in> set (sheet_names [(''Summary'', \<lparr>columns = [''Trade volume''], rows = []\<rparr>)]). is_year_sheet n)"
    using n by (simp add: sheet_names_def)
  from loader_fails_iff_no_year_sheet [of scenario_workbook "\<lambda>s. None"] a
  have 1: "\<exists>df. read_year_sheets scenario_workbook = Inr df" by blast
  from loader_fails_iff_no_year_sheet [of "[(''Summary'', \<lparr>columns = [''Trade volume''], rows = []\<rparr>)]" "\<lambda>s. None"] b
  show ?thesis using 1 by blast
qed

text \<open>
  Claim C4, as amended. The loader takes exactly the sheets whose lower-cased name starts
  with \<^verbatim>\<open>year\<close>, and every row of such a sheet gets as Year label the sheet name with
  every occurrence of \<^verbatim>\<open>"Year "\<close> removed and the surrounding whitespace trimmed. This
  is the name with the prefix \<^verbatim>\<open>"Year "\<close> stripped whenever \<^verbatim>\<open>"Year "\<close> does not occur
  in the name after that prefix.
\<close>

theorem loader_year_labels:
  assumes "distinct (sheet_names wb)" and "read_year_sheets wb = Inr df"
  shows "map (\<lambda>r. cell_of r ''Year'') (rows df)
         = concat (map (\<lambda>p. replicate (length (rows (snd p)))
                              (Str (strip (replace_str ''Year '' [] (fst p)))))
                    (filter (\<lambda>p. startswith (lower (fst p)) ''year'') wb))
         \<and> (\<not> occurs ''Year '' (after_prefix name) \<longrightarrow> year_label name = label_by_prefix name)"
proof -
  have "map (\<lambda>r. cell_of r ''Year'') (map (put ''Year'' (Str l)) rs) = replicate (length rs) (Str l)" for l rs
    by (induction rs) simp_all
  then show ?thesis
    using year_label_by_prefix [of name]
    by (simp add: read_year_sheets_rows [OF assms] map_concat comp_def is_year_sheet_def year_label_def)
qed

theorem loader_year_labels_witness:
  "distinct (sheet_names scenario_workbook)
   \<and> (\<exists>df. read_year_sheets scenario_workbook = Inr df
        \<and> map (\<lambda>r. cell_of r ''Year'') (rows df) = [Str ''2020'', Str ''2020'', Str ''2021''])
   \<and> \<not> occurs ''Year '' (after_prefix ''Year 2020'')
   \<and> year_label ''Year 2020'' = label_by_prefix ''Year 2020''
   \<and> label_by_prefix ''Year 2020'' = ''2020''"
proof -
  have d: "distinct (sheet_names scenario_workbook)"
    by (simp add: scenario_workbook_def sheet_names_def)
  have o: "\<not> occurs ''Year '' (after_prefix ''Year 2020'')" by code_simp
  have l: "label_by_prefix ''Year 2020'' = ''2020''" by code_simp
  have v: "concat (map (\<lambda>p. replicate (length (rows (snd p)))
                              (Str (strip (replace_str ''Year '' [] (fst p)))))
                    (filter (\<lambda>p. startswith (lower (fst p)) ''year'') scenario_workbook))
           = [Str ''2020'', Str ''2020'', Str ''2021'']"
    unfolding scenario_workbook_def by code_simp
  from loader_year_labels [OF d scenario_loaded, of "''Year 2020''"] o l v d scenario_loaded
  show ?thesis by auto
qed

text \<open>
  The claim as stated fails for a sheet name in which \<^verbatim>\<open>"Year "\<close> occurs again: the
  sheet \<^verbatim>\<open>Year 2020 vs Year 2019\<close> is labelled \<^verbatim>\<open>2020 vs 2019\<close>, while stripping the
  prefix gives \<^verbatim>\<open>2020 vs Year 2019\<close>.
\<close>

theorem loader_year_label_counterexample:
  "read_year_sheets
     [(''Year 2020 vs Year 2019'', \<lparr>columns = [''Trade volume''], rows = [[(''Trade volume'', Num 1)]]\<rparr>)]
   = Inr \<lparr>columns = [''Trade volume'', ''Year''],
          rows = [[(''Trade volume'', Num 1), (''Year'', Str ''2020 vs 2019'')]]\<rparr>
   \<and> is_year_sheet ''Year 2020 vs Year 2019''
   \<and> label_by_prefix ''Year 2020 vs Year 2019'' = ''2020 vs Year 2019''"
  by code_simp

section \<open>Grouping and summing\<close>

lemma sum_list_delta:
  "distinct ks \<Longrightarrow> (\<Sum>k\<leftarrow>ks. if a = Some k then (v::rat) else 0) = (if a \<in> Some ` set ks then v else 0)"
  by (induction ks) auto

lemma set_map_filter_keys:
  "set (List.map_filter kf rs) = {k. \<exists>r \<in> set rs. kf r = Some k}"
  by (auto simp: List.map_filter_def intro: rev_image_eqI)

lemma sum_groups:
  assumes "distinct ks" and "\<And>r k. r \<in> set rs \<Longrightarrow> kf r = Some k \<Longrightarrow> k \<in> set ks"
  shows "(\<Sum>k\<leftarrow>ks. sum_list (map volume (filter (\<lambda>r. kf r = Some k) rs)))
         = sum_list (map volume (filter (\<lambda>r. kf r \<noteq> None) rs))"
  using assms(2)
proof (induction rs)
  case Nil
  then show ?case by simp
next
  case (Cons r rs)
  have sub: "\<And>r k. r \<in> set rs \<Longrightarrow> kf r = Some k \<Longrightarrow> k \<in> set ks"
    using Cons.prems by (meson list.set_intros(2))
  have "(\<Sum>k\<leftarrow>ks. sum_list (map volume (filter (\<lambda>r. kf r = Some k) (r # rs))))
        = (\<Sum>k\<leftarrow>ks. (if kf r = Some k then volume r else 0)
                      + sum_list (map volume (filter (\<lambda>r. kf r = Some k) rs)))"
    by (intro arg_cong [where f = sum_list] map_cong) auto
  also have "\<dots> = (\<Sum>k\<leftarrow>ks. if kf r = Some k then volume r else 0)
                  + (\<Sum>k\<leftarrow>ks. sum_list (map volume (filter (\<lambda>r. kf r = Some k) rs)))"
    by (simp add: sum_list_addf)
  also have "(\<Sum>k\<leftarrow>ks. if kf r = Some k then volume r else 0)
             = (if kf r \<in> Some ` set ks then volume r else 0)"
    by (rule sum_list_delta [OF assms(1)])
  also have "\<dots> = (if kf r \<noteq> None then volume r else 0)"
    using Cons.prems [of r] by (cases "kf r") auto
  finally show ?case
    using Cons.IH [OF sub] by simp
qed

lemma sum_list_sort_key:
  "sum_list (map (f::'a \<Rightarrow> rat) (sort_key (g::'a \<Rightarrow> 'o::linorder) xs)) = sum_list (map f xs)"
proof (induction xs)
  case Nil
  then show ?case by simp
next
  case (Cons x xs)
  have "sum_list (map f (insort_key g x ys)) = f x + sum_list (map f ys)" for ys
    by (induction ys) auto
  with Cons show ?case by simp
qed

lemma map_snd_group_sum:
  "map snd (group_sum kf rank rs)
   = map (\<lambda>k. sum_list (map volume (filter (\<lambda>r. kf r = Some k) rs)))
       (sort_key rank (remdups (List.map_filter kf rs)))"
  by (simp add: group_sum_def comp_def)

lemma group_sum_total:
  "sum_list (map snd (group_sum kf rank rs))
   = sum_list (map volume (filter (\<lambda>r. kf r \<noteq> None) rs))"
proof -
  have "sum_list (map snd (group_sum kf rank rs))
        = (\<Sum>k\<leftarrow>remdups (List.map_filter kf rs).
             sum_list (map volume (filter (\<lambda>r. kf r = Some k) rs)))"
    by (simp only: map_snd_group_sum sum_list_sort_key)
  also have "\<dots> = sum_list (map volume (filter (\<lambda>r. kf r \<noteq> None) rs))"
    by (rule sum_groups) (auto simp: set_map_filter_keys)
  finally show ?thesis .
qed

lemma key1_None [simp]: "key1 c r = None \<longleftrightarrow> cell_of r c = Null"
  by (simp add: key1_def split: cell.splits)

lemma key1_Some [simp]: "key1 c r = Some k \<longleftrightarrow> cell_of r c = k \<and> k \<noteq> Null"
  by (auto simp: key1_def split: cell.splits)

lemma key2_None [simp]: "key2 c d r = None \<longleftrightarrow> cell_of r c = Null \<or> cell_of r d = Null"
  by (auto simp: key2_def split: option.splits)

lemma key2_Some [simp]:
  "key2 c d r = Some k \<longleftrightarrow> cell_of r c = fst k \<and> cell_of r d = snd k \<and> fst k \<noteq> Null \<and> snd k \<noteq> Null"
  by (cases k) (auto simp: key2_def split: option.splits)

lemma by_volume_total:
  "sum_list (map snd (by_volume c df))
   = sum_list (map volume (filter (\<lambda>r. cell_of r c \<noteq> Null) (rows df)))"
  by (simp add: by_volume_def sum_list_sort_key [where f = snd] group_sum_total)

lemma by_year_volume_total:
  "sum_list (map snd (by_year_volume c df))
   = sum_list (map volume (filter (\<lambda>r. cell_of r ''Year'' \<noteq> Null \<and> cell_of r c \<noteq> Null) (rows df)))"
  by (simp add: by_year_volume_def sum_list_sort_key [where f = snd] group_sum_total)

lemma set_group_sum:
  "set (group_sum kf rank rs)
   = (\<lambda>k. (k, sum_list (map volume (filter (\<lambda>r. kf r = Some k) rs)))) ` {k. \<exists>r \<in> set rs. kf r = Some k}"
proof -
  show ?thesis by (simp add: group_sum_def set_map_filter_keys)
qed

lemma set_by_volume:
  "set (by_volume c df)
   = (\<lambda>k. (k, sum_list (map volume (filter (\<lambda>r. cell_of r c = k) (rows df)))))
       ` {k. k \<noteq> Null \<and> (\<exists>r \<in> set (rows df). cell_of r c = k)}"
proof -
  have "(\<lambda>k. (k, sum_list (map volume (filter (\<lambda>r. key1 c r = Some k) (rows df))))) ` {k. \<exists>r \<in> set (rows df). key1 c r = Some k}
     = (\<lambda>k. (k, sum_list (map volume (filter (\<lambda>r. cell_of r c = k) (rows df))))) ` {k. k \<noteq> Null \<and> (\<exists>r \<in> set (rows df). cell_of r c = k)}"
    by (rule image_cong) auto
  then show ?thesis
    by (simp add: by_volume_def set_group_sum del: key1_Some)
qed

lemma per_year_total:
  "sum_list (map snd (per_year df))
   = sum_list (map volume (filter (\<lambda>r. cell_of r ''Year'' \<noteq> Null) (rows df)))"
  by (simp add: per_year_def sum_list_sort_key [where f = snd] group_sum_total)

lemma muni_exp_total:
  "sum_list (map snd (muni_exp df))
   = sum_list (map volume
       (filter (\<lambda>r. cell_of r ''Municipality of export'' \<noteq> Null \<and> cell_of r ''Exporter'' \<noteq> Null)
          (rows df)))"
  by (simp add: muni_exp_def sum_list_sort_key [where f = snd] group_sum_total)

lemma with_percent_total:
  "with_percent (by_volume c df)
   = map (\<lambda>x. (fst x, snd x,
                times100 (float_div (snd x)
                  (sum_list (map volume (filter (\<lambda>r. cell_of r c \<noteq> Null) (rows df)))))))
       (by_volume c df)"
  by (simp add: with_percent_def by_volume_total case_prod_beta)

lemma keys_by_volume:
  "fst ` set (by_volume c df) = {k. k \<noteq> Null \<and> (\<exists>r \<in> set (rows df). cell_of r c = k)}"
  by (simp add: set_by_volume image_image)

text \<open>
  Claim C10. In every report a row of the unified table whose grouping key value is
  missing belongs to no group and is left out of the grand total: the groups are the
  present key values, and the total of the summed column (the denominator of the
  percentages) is the volume of the rows with a present key only. The denominators differ
  between reports and from the volume of the whole table, as on the table \<open>gap_frame\<close>:
  40 by exporter, 50 by coffee bean, 65 overall.
\<close>

theorem missing_keys_excluded:
  "fst ` set (by_volume c df) = {k. k \<noteq> Null \<and> (\<exists>r \<in> set (rows df). cell_of r c = k)}
   \<and> sum_list (map snd (by_volume c df))
       = sum_list (map volume (filter (\<lambda>r. cell_of r c \<noteq> Null) (rows df)))
   \<and> with_percent (by_volume c df)
       = map (\<lambda>x. (fst x, snd x,
                    times100 (float_div (snd x)
                      (sum_list (map volume (filter (\<lambda>r. cell_of r c \<noteq> Null) (rows df)))))))
           (by_volume c df)
   \<and> sum_list (map snd (by_year_volume c df))
       = sum_list (map volume
           (filter (\<lambda>r. cell_of r ''Year'' \<noteq> Null \<and> cell_of r c \<noteq> Null) (rows df)))
   \<and> sum_list (map snd (per_year df))
       = sum_list (map volume (filter (\<lambda>r. cell_of r ''Year'' \<noteq> Null) (rows df)))
   \<and> sum_list (map snd (muni_exp df))
       = sum_list (map volume
           (filter (\<lambda>r. cell_of r ''Municipality of export'' \<noteq> Null
                       \<and> cell_of r ''Exporter'' \<noteq> Null) (rows df)))
   \<and> sum_list (map snd (by_volume ''Exporter'' gap_frame)) = 40
   \<and> sum_list (map snd (by_volume ''Coffee bean'' gap_frame)) = 50
   \<and> sum_list (map volume (rows gap_frame)) = 65"
proof -
  have "sum_list (map snd (by_volume ''Exporter'' gap_frame)) = 40"
    unfolding gap_frame_def by code_simp
  moreover have "sum_list (map snd (by_volume ''Coffee bean'' gap_frame)) = 50"
    unfolding gap_frame_def by code_simp
  moreover have "sum_list (map volume (rows gap_frame)) = 65"
    unfolding gap_frame_def by code_simp
  ultimately show ?thesis
    using keys_by_volume [of c df] by_volume_total [of c df] with_percent_total [of c df]
      by_year_volume_total [of c df] per_year_total [of df] muni_exp_total [of df]
    by (simp only: simp_thms)
qed

theorem missing_keys_excluded_witness:
  "by_volume ''Exporter'' gap_frame = [(Str ''B'', 30), (Str ''A'', 10)]
   \<and> sum_list (map volume (filter (\<lambda>r. cell_of r ''Exporter'' \<noteq> Null) (rows gap_frame))) = 40
   \<and> with_percent (by_volume ''Exporter'' gap_frame)
       = [(Str ''B'', 30, Fin 75), (Str ''A'', 10, Fin 25)]"
proof -
  have a: "by_volume ''Exporter'' gap_frame = [(Str ''B'', 30), (Str ''A'', 10)]"
    unfolding gap_frame_def by code_simp
  have b: "sum_list (map snd [(Str ''B'', 30::rat), (Str ''A'', 10)]) = 40" by simp
  have c: "times100 (float_div 30 40) = Fin 75" "times100 (float_div 10 40) = Fin 25"
    by (simp_all add: times100_def float_div_def)
  from missing_keys_excluded [of "''Exporter''" gap_frame] a b c show ?thesis
    by simp
qed

section \<open>Percentages\<close>







section \<open>Order of the report tables\<close>

lemma cell_rank_inj [simp]: "cell_rank a = cell_rank b \<longleftrightarrow> a = b"
  by (cases a; cases b) (simp_all add: cell_rank_def)



lemma sort_key_then_volume:
  "key_then_volume (sort_key (\<lambda>(k, v). (cell_rank (fst k), - v)) t)"
proof -
  have "sorted (map (\<lambda>(k, v). (cell_rank (fst k), - v)) (sort_key (\<lambda>(k, v). (cell_rank (fst k), - v)) t))"
    by (rule sorted_sort_key)
  then have "sorted_wrt (\<lambda>a b. (cell_rank (fst (fst a)), - snd a) \<le> (cell_rank (fst (fst b)), - snd b))
               (sort_key (\<lambda>(k, v). (cell_rank (fst k), - v)) t)"
    by (simp add: sorted_map case_prod_beta)
  then show ?thesis
    unfolding key_then_volume_def
    by (rule sorted_wrt_mono_rel [rotated]) auto
qed

lemma by_year_volume_sorted: "key_then_volume (by_year_volume c df)"
  unfolding by_year_volume_def by (rule sort_key_then_volume)


lemma set_head_per_group: "set (head_per_group n key seen rs) \<subseteq> set rs"
  by (induction rs arbitrary: seen) auto

lemma head_per_group_sorted_wrt:
  "sorted_wrt P rs \<Longrightarrow> sorted_wrt P (head_per_group n key seen rs)"
proof (induction rs arbitrary: seen)
  case Nil
  then show ?case by simp
next
  case (Cons r rs)
  then show ?case
    using set_head_per_group [of n key "key r # seen" rs] by auto
qed

lemma head_per_group_filter:
  "filter (\<lambda>x. key x = y) (head_per_group n key seen rs)
   = take (n - count_list seen y) (filter (\<lambda>x. key x = y) rs)"
proof (induction rs arbitrary: seen)
  case Nil
  then show ?case by simp
next
  case (Cons r rs)
  show ?case
  proof (cases "key r = y")
    case True
    show ?thesis
    proof (cases "count_list seen y < n")
      case True
      then have "n - count_list seen y = Suc (n - Suc (count_list seen y))"
        by simp
      with True \<open>key r = y\<close> show ?thesis
        by (simp add: Cons.IH)
    next
      case False
      with \<open>key r = y\<close> show ?thesis by (simp add: Cons.IH)
    qed
  next
    case False
    then show ?thesis by (simp add: Cons.IH)
  qed
qed

lemma top_per_year_sorted: "key_then_volume (top_per_year n c df)"
  using by_year_volume_sorted [of c df]
  unfolding top_per_year_def key_then_volume_def
  by (rule head_per_group_sorted_wrt)


lemma key_then_volume_within:
  assumes "key_then_volume t"
  shows "volume_descending (filter (\<lambda>x. year_of x = y) t)"
proof -
  from assms have "sorted_wrt (\<lambda>a b. cell_rank (fst (fst a)) < cell_rank (fst (fst b))
                      \<or> (fst (fst a) = fst (fst b) \<and> snd b \<le> snd a)) (filter (\<lambda>x. year_of x = y) t)"
    unfolding key_then_volume_def by (rule sorted_wrt_filter)
  then show ?thesis
    unfolding volume_descending_def
    by (rule sorted_wrt_mono_rel [rotated]) (auto simp: year_of_def)
qed

text \<open>
  Claim C7. A top-N-per-Year table (top 3 importers, top 3 destination countries, top 1
  coffee bean: \<open>top_per_year\<close> with \<open>n\<close> 3, 3 and 1) has at most \<open>n\<close> rows for every
  Year value, and within the rows of one Year the summed volume never increases from one
  row to the next.
\<close>

theorem top_per_year_bounded:
  "length (filter (\<lambda>x. year_of x = y) (top_per_year n c df)) \<le> n
   \<and> volume_descending (filter (\<lambda>x. year_of x = y) (top_per_year n c df))"
proof -
  have "length (filter (\<lambda>x. year_of x = y) (top_per_year n c df)) \<le> n"
    by (simp add: top_per_year_def head_per_group_filter)
  moreover have "volume_descending (filter (\<lambda>x. year_of x = y) (top_per_year n c df))"
    using top_per_year_sorted by (rule key_then_volume_within)
  ultimately show ?thesis by simp
qed


theorem top_per_year_bounded_witness:
  "top_per_year 3 ''Importer'' importers_frame
     = [((Str ''2020'', Str ''Q''), 11), ((Str ''2020'', Str ''R''), 7),
        ((Str ''2020'', Str ''P''), 5), ((Str ''2021'', Str ''P''), 4)]
   \<and> length (filter (\<lambda>x. year_of x = Str ''2020'')
         (top_per_year 3 ''Importer'' importers_frame)) \<le> 3
   \<and> volume_descending (filter (\<lambda>x. year_of x = Str ''2020'')
         (top_per_year 3 ''Importer'' importers_frame))"
proof -
  have "top_per_year 3 ''Importer'' importers_frame
     = [((Str ''2020'', Str ''Q''), 11), ((Str ''2020'', Str ''R''), 7),
        ((Str ''2020'', Str ''P''), 5), ((Str ''2021'', Str ''P''), 4)]"
    unfolding importers_frame_def by code_simp
  with top_per_year_bounded [of "Str ''2020''" 3 "''Importer''" importers_frame]
  show ?thesis by (intro conjI) simp_all
qed








section \<open>The normalizer\<close>

lemma columns_set_column_present:
  "c \<in> set (columns df) \<Longrightarrow> columns (set_column c f df) = columns df"
  by (simp add: set_column_def)

lemma set_columns_set_column:
  "set (columns (set_column c f df)) = insert c (set (columns df))"
  by (auto simp: set_column_def)

lemma columns_coerce_numeric: "columns (coerce_numeric parse df cols) = columns df"
proof -
  have "columns (foldl (\<lambda>d c. if c \<in> set (columns d)
                   then set_column c (\<lambda>r. to_numeric parse (cell_of r c)) d else d) df cols) = columns df"
    by (induction cols arbitrary: df) (simp_all add: columns_set_column_present)
  then show ?thesis by (simp add: coerce_numeric_def)
qed

lemma rows_coerce_numeric:
  "rows (coerce_numeric parse df [''Trade volume'', ''Trade value''])
   = map (coerce_row parse (columns df)) (rows df)"
  by (auto simp: coerce_numeric_def coerce_row_def [abs_def] columns_set_column_present Let_def)

lemma coerce_row_volume:
  "''Trade volume'' \<in> set cs \<Longrightarrow>
   cell_of (coerce_row parse cs r) ''Trade volume'' = to_numeric parse (cell_of r ''Trade volume'')"
  by (simp add: coerce_row_def Let_def)

lemma coerce_row_other:
  "c \<noteq> ''Trade volume'' \<Longrightarrow> c \<noteq> ''Trade value'' \<Longrightarrow>
   cell_of (coerce_row parse cs r) c = cell_of r c"
  by (simp add: coerce_row_def Let_def)

lemma normalizer_Inr:
  assumes "normalizer parse df = Inr df'"
  shows "''Trade volume'' \<in> set (columns df)"
    and "set (columns df') = insert ''Trade volume (t)'' (set (columns df))"
    and "rows df' = map (normal_row parse (columns df))
                      (filter (\<lambda>r. to_numeric parse (cell_of r ''Trade volume'') \<noteq> Null) (rows df))"
proof -
  from assms show tv: "''Trade volume'' \<in> set (columns df)"
    by (simp add: normalizer_def Let_def columns_coerce_numeric split: if_splits)
  from assms tv have df': "df' = dropna ''Trade volume''
                (set_column ''Trade volume (t)''
                   (\<lambda>r. div_cell (cell_of r ''Trade volume'') 1000)
                   (coerce_numeric parse df [''Trade volume'', ''Trade value'']))"
    by (simp add: normalizer_def Let_def columns_coerce_numeric)
  then show "set (columns df') = insert ''Trade volume (t)'' (set (columns df))"
    by (simp add: dropna_def set_columns_set_column columns_coerce_numeric)
  have v: "cell_of (normal_row parse (columns df) r) ''Trade volume''
           = to_numeric parse (cell_of r ''Trade volume'')" for r
    using tv by (simp add: normal_row_def coerce_row_volume)
  have "rows df' = filter (\<lambda>r. cell_of r ''Trade volume'' \<noteq> Null)
                     (map (normal_row parse (columns df)) (rows df))"
    unfolding df' by (simp add: dropna_def rows_coerce_numeric normal_row_def [abs_def] comp_def)
  then show "rows df' = map (normal_row parse (columns df))
                      (filter (\<lambda>r. to_numeric parse (cell_of r ''Trade volume'') \<noteq> Null) (rows df))"
    by (simp add: filter_map comp_def v)
qed

lemma normal_row_volume:
  "''Trade volume'' \<in> set cs \<Longrightarrow>
   cell_of (normal_row parse cs r) ''Trade volume'' = to_numeric parse (cell_of r ''Trade volume'')"
  by (simp add: normal_row_def coerce_row_volume)

lemma normal_row_tons:
  "''Trade volume'' \<in> set cs \<Longrightarrow>
   cell_of (normal_row parse cs r) ''Trade volume (t)''
   = div_cell (to_numeric parse (cell_of r ''Trade volume'')) 1000"
  by (simp add: normal_row_def coerce_row_volume)

lemma normal_row_other:
  "c \<noteq> ''Trade volume'' \<Longrightarrow> c \<noteq> ''Trade value'' \<Longrightarrow> c \<noteq> ''Trade volume (t)'' \<Longrightarrow>
   cell_of (normal_row parse cs r) c = cell_of r c"
  by (simp add: normal_row_def coerce_row_other)

lemma to_numeric_cases:
  "to_numeric parse c = Null \<or> (\<exists>v. to_numeric parse c = Num v)"
  by (simp add: to_numeric_def split: cell.splits option.splits)


lemma to_numeric_not_Str [simp]: "to_numeric parse c \<noteq> Str s"
  by (simp add: to_numeric_def split: cell.splits option.splits)

lemma parsed_volume_None:
  "parsed_volume parse r = None \<longleftrightarrow> to_numeric parse (cell_of r ''Trade volume'') = Null"
  by (simp add: parsed_volume_def split: cell.splits)

lemma length_parsed:
  "length (filter (\<lambda>r. to_numeric parse (cell_of r ''Trade volume'') \<noteq> Null) rs)
   = length (List.map_filter (parsed_volume parse) rs)"
  by (simp add: List.map_filter_def parsed_volume_None)

lemma normalizer_by_volume_total:
  assumes "normalizer parse df = Inr df'"
    and "c \<noteq> ''Trade volume''" and "c \<noteq> ''Trade value''" and "c \<noteq> ''Trade volume (t)''"
  shows "sum_list (map snd (by_volume c df'))
         = sum_list (List.map_filter (parsed_volume parse)
             (filter (\<lambda>r. cell_of r c \<noteq> Null) (rows df)))"
proof -
  let ?g = "normal_row parse (columns df)"
  let ?P = "\<lambda>r. to_numeric parse (cell_of r ''Trade volume'') \<noteq> Null"
  note n = normalizer_Inr [OF assms(1)]
  have vol: "volume (?g r) = (case parsed_volume parse r of Some v \<Rightarrow> v | None \<Rightarrow> 0)" for r
    using n(1) by (simp add: volume_def parsed_volume_def normal_row_volume split: cell.splits)
  have key: "cell_of (?g r) c = cell_of r c" for r
    using assms(2-4) by (rule normal_row_other)
  have "sum_list (map snd (by_volume c df'))
        = sum_list (map volume (filter (\<lambda>r. cell_of r c \<noteq> Null) (map ?g (filter ?P (rows df)))))"
    by (simp add: by_volume_total n(3))
  also have "\<dots> = sum_list (map (\<lambda>r. case parsed_volume parse r of Some v \<Rightarrow> v | None \<Rightarrow> 0)
                       (filter (\<lambda>r. cell_of r c \<noteq> Null) (filter ?P (rows df))))"
    by (simp add: filter_map comp_def key vol)
  also have "\<dots> = sum_list (List.map_filter (parsed_volume parse)
                       (filter (\<lambda>r. cell_of r c \<noteq> Null) (rows df)))"
  proof -
    have "sum_list (map (\<lambda>r. case parsed_volume parse r of Some v \<Rightarrow> v | None \<Rightarrow> 0)
                       (filter (\<lambda>r. cell_of r c \<noteq> Null) (filter ?P rs)))
          = sum_list (List.map_filter (parsed_volume parse)
                       (filter (\<lambda>r. cell_of r c \<noteq> Null) rs))" for rs
      by (induction rs) (auto simp: List.map_filter_simps parsed_volume_None [symmetric])
    then show ?thesis .
  qed
  finally show ?thesis .
qed

text \<open>
  Claim C3. After the normalizer every retained row has a numeric (non-null) Trade volume
  and its Trade volume (t) is that volume divided by 1000. The retained rows are, in
  order, the rows whose volume is a number after coercion: a row whose volume is missing
  or unparseable is dropped, and the totals of the summaries (by year, and by any key
  column) add up the numeric volumes of the other rows only.
\<close>

theorem normalizer_volume:
  assumes "normalizer parse df = Inr df'"
  shows "(\<forall>r \<in> set (rows df'). \<exists>v. cell_of r ''Trade volume'' = Num v
                               \<and> cell_of r ''Trade volume (t)'' = Num (v / 1000))
         \<and> map (\<lambda>r. cell_of r ''Trade volume'') (rows df')
             = filter (\<lambda>c. c \<noteq> Null)
                 (map (\<lambda>r. to_numeric parse (cell_of r ''Trade volume'')) (rows df))
         \<and> length (rows df') = length (List.map_filter (parsed_volume parse) (rows df))
         \<and> sum_list (map snd (per_year df'))
             = sum_list (List.map_filter (parsed_volume parse)
                 (filter (\<lambda>r. cell_of r ''Year'' \<noteq> Null) (rows df)))
         \<and> (c \<notin> {''Trade volume'', ''Trade value'', ''Trade volume (t)''} \<longrightarrow>
              sum_list (map snd (by_volume c df'))
              = sum_list (List.map_filter (parsed_volume parse)
                  (filter (\<lambda>r. cell_of r c \<noteq> Null) (rows df))))"
proof -
  let ?g = "normal_row parse (columns df)"
  let ?P = "\<lambda>r. to_numeric parse (cell_of r ''Trade volume'') \<noteq> Null"
  note n = normalizer_Inr [OF assms]
  have 1: "\<forall>r \<in> set (rows df'). \<exists>v. cell_of r ''Trade volume'' = Num v
                               \<and> cell_of r ''Trade volume (t)'' = Num (v / 1000)"
  proof
    fix r assume "r \<in> set (rows df')"
    then obtain r0 where r: "r = ?g r0" and p: "?P r0"
      by (auto simp: n(3))
    from p to_numeric_cases [of parse "cell_of r0 ''Trade volume''"]
    obtain v where "to_numeric parse (cell_of r0 ''Trade volume'') = Num v" by auto
    with r n(1) show "\<exists>v. cell_of r ''Trade volume'' = Num v
                               \<and> cell_of r ''Trade volume (t)'' = Num (v / 1000)"
      by (simp add: normal_row_volume normal_row_tons div_cell_def)
  qed
  have 2: "map (\<lambda>r. cell_of r ''Trade volume'') (rows df')
             = filter (\<lambda>c. c \<noteq> Null)
                 (map (\<lambda>r. to_numeric parse (cell_of r ''Trade volume'')) (rows df))"
    using n(1) by (simp add: n(3) filter_map comp_def normal_row_volume)
  have 3: "length (rows df') = length (List.map_filter (parsed_volume parse) (rows df))"
  proof -
    have "length (filter ?P rs) = length (List.map_filter (parsed_volume parse) rs)" for rs
      by (rule length_parsed)
    then show ?thesis by (simp add: n(3))
  qed
  have 4: "sum_list (map snd (per_year df'))
             = sum_list (List.map_filter (parsed_volume parse)
                 (filter (\<lambda>r. cell_of r ''Year'' \<noteq> Null) (rows df)))"
  proof -
    have "sum_list (map snd (per_year df')) = sum_list (map snd (by_volume ''Year'' df'))"
      by (simp add: per_year_total by_volume_total)
    also have "\<dots> = sum_list (List.map_filter (parsed_volume parse)
                 (filter (\<lambda>r. cell_of r ''Year'' \<noteq> Null) (rows df)))"
      by (rule normalizer_by_volume_total [OF assms]) simp_all
    finally show ?thesis .
  qed
  have 5: "c \<notin> {''Trade volume'', ''Trade value'', ''Trade volume (t)''} \<longrightarrow>
              sum_list (map snd (by_volume c df'))
              = sum_list (List.map_filter (parsed_volume parse)
                  (filter (\<lambda>r. cell_of r c \<noteq> Null) (rows df)))"
    using normalizer_by_volume_total [OF assms, of c] by simp
  from 1 2 3 4 5 show ?thesis by (intro conjI)
qed

theorem normalizer_volume_witness:
  "normalizer sample_parse mixed_frame
     = Inr \<lparr>columns = [''Trade volume'', ''Exporter'', ''Year'', ''Trade volume (t)''],
            rows =
              [[(''Trade volume'', Num 1500), (''Exporter'', Str ''A''), (''Year'', Str ''2020''),
                (''Trade volume (t)'', Num (3 / 2))],
               [(''Trade volume'', Num 250), (''Exporter'', Str ''B''), (''Year'', Str ''2020''),
                (''Trade volume (t)'', Num (1 / 4))]]\<rparr>
   \<and> (\<exists>df'. normalizer sample_parse mixed_frame = Inr df'
         \<and> length (rows df') = 2
         \<and> sum_list (map snd (per_year df')) = 1750
         \<and> sum_list (map snd (by_volume ''Exporter'' df')) = 1750)"
proof -
  let ?df' = "\<lparr>columns = [''Trade volume'', ''Exporter'', ''Year'', ''Trade volume (t)''],
            rows =
              [[(''Trade volume'', Num 1500), (''Exporter'', Str ''A''), (''Year'', Str ''2020''),
                (''Trade volume (t)'', Num (3 / 2))],
               [(''Trade volume'', Num 250), (''Exporter'', Str ''B''), (''Year'', Str ''2020''),
                (''Trade volume (t)'', Num (1 / 4))]]\<rparr>"
  have n: "normalizer sample_parse mixed_frame = Inr ?df'"
    unfolding mixed_frame_def by code_simp
  have a: "length (List.map_filter (parsed_volume sample_parse) (rows mixed_frame)) = 2"
    unfolding mixed_frame_def by code_simp
  have b: "sum_list (List.map_filter (parsed_volume sample_parse)
                 (filter (\<lambda>r. cell_of r ''Year'' \<noteq> Null) (rows mixed_frame))) = 1750"
    unfolding mixed_frame_def by code_simp
  have c: "sum_list (List.map_filter (parsed_volume sample_parse)
                 (filter (\<lambda>r. cell_of r ''Exporter'' \<noteq> Null) (rows mixed_frame))) = 1750"
    unfolding mixed_frame_def by code_simp
  have d: "''Exporter'' \<notin> {''Trade volume'', ''Trade value'', ''Trade volume (t)''}" by simp
  from normalizer_volume [OF n, of "''Exporter''"] a b c d
  have "length (rows ?df') = 2 \<and> sum_list (map snd (per_year ?df')) = 1750
        \<and> sum_list (map snd (by_volume ''Exporter'' ?df')) = 1750"
    by (simp only: simp_thms)
  with n show ?thesis by blast
qed

section \<open>Which reports are written\<close>









end
